theory Spec2Isabelle
  imports Complex_Main "HOL-Library.Word"
begin

section \<open>JavaScript values\<close>

text \<open>
  A field read from a JSON response or an optional argument is either absent
  (\<open>undefined\<close>), \<open>null\<close>, or a value. The source tells the three apart
  (\<open>!== undefined\<close>, \<open>=== null\<close>, \<open>??\<close>), so the model does too.
\<close>

datatype 'a js = Undefined | Null | Defined 'a

text \<open>\<open>a ?? b\<close>: the left operand unless it is \<open>null\<close> or \<open>undefined\<close>.\<close>

fun nullish :: "'a js \<Rightarrow> 'a js \<Rightarrow> 'a js" where
  "nullish (Defined v) d = Defined v"
| "nullish Undefined d = d"
| "nullish Null d = d"

text \<open>Truthiness of a string-valued binding (\<open>!token\<close>): the empty string is falsy.\<close>

fun truthy_str :: "string js \<Rightarrow> bool" where
  "truthy_str (Defined s) = (s \<noteq> [])"
| "truthy_str Undefined = False"
| "truthy_str Null = False"

text \<open>Truthiness of a boolean-valued flag (\<open>require_stepup\<close>).\<close>

fun truthy_bool :: "bool js \<Rightarrow> bool" where
  "truthy_bool (Defined b) = b"
| "truthy_bool Undefined = False"
| "truthy_bool Null = False"

text \<open>
  Failures of an awaited call: axios rejects on a network error and on a response whose
  status is not 2xx; reading a property of an absent response body throws a TypeError.
\<close>

datatype error = NetworkError | HttpStatus nat | TypeError


section \<open>The capture hook (frontend/src/hooks/useBehavioralCapture.js)\<close>

definition BATCH_INTERVAL :: int where
  "BATCH_INTERVAL = 5000"

definition MOUSE_THROTTLE :: int where
  "MOUSE_THROTTLE = 100"

datatype key_action = Down | Up

datatype mouse_action = Move | Click

text \<open>
  \<open>event.key\<close> and \<open>event.code\<close> are JavaScript strings, whose \<open>length\<close> counts
  UTF-16 code units; they are kept as lists of code units. \<open>ascii\<close> gives the code
  units of a text of ASCII characters, one unit per character.
\<close>

type_synonym utf16 = "16 word list"

definition ascii :: "string \<Rightarrow> utf16" where
  "ascii s = map (\<lambda>c. of_nat (of_char c)) s"

text \<open>
  The objects pushed on the buffer: \<open>{type: 'keystroke', key, action, timestamp}\<close> and
  \<open>{type: 'mouse', x, y, action, timestamp}\<close>. The timestamp is \<open>Date.now() / 1000\<close>.
\<close>

datatype behavioral_event =
    Keystroke utf16 key_action real
  | Mouse int int mouse_action real

text \<open>
  What the handlers read of a DOM event: \<open>event.target.type\<close> (absent on elements that
  are not form controls), \<open>event.key\<close>, \<open>event.code\<close>, \<open>event.clientX\<close>,
  \<open>event.clientY\<close>.
\<close>

record key_event =
  target_type :: "string js"
  key :: utf16
  code :: utf16

record mouse_event =
  clientX :: int
  clientY :: int

record stats =
  keystrokeCount :: nat
  mouseCount :: nat
  batchesSent :: nat

record trust_update =
  score :: "real js"
  status :: "string js"

text \<open>The body of a successful \<open>POST /events/batch\<close> response.\<close>

record batch_result =
  events_processed :: "nat js"
  trust_score :: "real js"
  result_status :: "string js"

text \<open>What \<open>eventsAPI.submitBatch(token, sessionId, batch)\<close> sends.\<close>

record batch_request =
  req_token :: "string js"
  req_session_id :: "string js"
  req_events :: "behavioral_event list"

datatype console_entry =
    BatchSent "nat js" "real js"
  | ErrorSendingBatch error

text \<open>
  The state of one hook instance: the two \<open>useState\<close> cells, the three refs, and the
  lines written to the console. \<open>updateId\<close> stands for the identity of the object held
  in \<open>updateTrustScore\<close>: every \<open>setUpdateTrustScore({...})\<close> stores a fresh object,
  and an effect that depends on \<open>updateTrustScore\<close> runs when that identity changes.

  The hook's functions are created anew in every render and close over the \<open>token\<close>
  and \<open>sessionId\<close> of that render. \<open>flushTimers\<close> lists, for every
  \<open>setInterval(sendEventBatch, BATCH_INTERVAL)\<close> made so far, the pair its
  \<open>sendEventBatch\<close> closed over (the function that \<open>startCapture\<close> returns to
  clear the interval is dropped by its caller, so a timer stays). \<open>cleanup\<close> is the
  pair of the \<open>stopCapture\<close> that the effect has returned as its cleanup, if it has.
\<close>

record capture =
  stats :: stats
  updateTrustScore :: trust_update
  updateId :: nat
  eventBuffer :: "behavioral_event list"
  lastMouseMove :: int
  isCapturing :: bool
  console :: "console_entry list"
  flushTimers :: "(string js \<times> string js) list"
  cleanup :: "(string js \<times> string js) option"

definition initial_capture :: capture where
  "initial_capture =
     \<lparr>stats = \<lparr>keystrokeCount = 0, mouseCount = 0, batchesSent = 0\<rparr>,
      updateTrustScore = \<lparr>score = Null, status = Null\<rparr>,
      updateId = 0,
      eventBuffer = [],
      lastMouseMove = 0,
      isCapturing = False,
      console = [],
      flushTimers = [],
      cleanup = None\<rparr>"

text \<open>\<open>Date.now() / 1000\<close>, with \<open>Date.now()\<close> an integer count of milliseconds.\<close>

definition seconds :: "int \<Rightarrow> real" where
  "seconds now = real_of_int now / 1000"

text \<open>\<open>event.key.length === 1 ? event.key : event.code\<close>\<close>

definition key_name :: "key_event \<Rightarrow> utf16" where
  "key_name event = (if length (key event) = 1 then key event else code event)"

text \<open>
  The four listeners. Each takes the value \<open>Date.now()\<close> returns during the call.
  The counters are changed through \<open>setStats(prev => ...)\<close>, a function of the
  latest state.
\<close>

definition handleKeyDown :: "int \<Rightarrow> key_event \<Rightarrow> capture \<Rightarrow> capture" where
  "handleKeyDown now event c =
     (if \<not> isCapturing c then c
      else if target_type event = Defined ''password'' then c
      else c\<lparr>eventBuffer := eventBuffer c @ [Keystroke (key_name event) Down (seconds now)],
              stats := (stats c)\<lparr>keystrokeCount := keystrokeCount (stats c) + 1\<rparr>\<rparr>)"

definition handleKeyUp :: "int \<Rightarrow> key_event \<Rightarrow> capture \<Rightarrow> capture" where
  "handleKeyUp now event c =
     (if \<not> isCapturing c then c
      else if target_type event = Defined ''password'' then c
      else c\<lparr>eventBuffer := eventBuffer c @ [Keystroke (key_name event) Up (seconds now)]\<rparr>)"

definition handleMouseMove :: "int \<Rightarrow> mouse_event \<Rightarrow> capture \<Rightarrow> capture" where
  "handleMouseMove now event c =
     (if \<not> isCapturing c then c
      else if now - lastMouseMove c < MOUSE_THROTTLE then c
      else c\<lparr>lastMouseMove := now,
              eventBuffer := eventBuffer c @ [Mouse (clientX event) (clientY event) Move (seconds now)],
              stats := (stats c)\<lparr>mouseCount := mouseCount (stats c) + 1\<rparr>\<rparr>)"

definition handleMouseClick :: "int \<Rightarrow> mouse_event \<Rightarrow> capture \<Rightarrow> capture" where
  "handleMouseClick now event c =
     (if \<not> isCapturing c then c
      else c\<lparr>eventBuffer := eventBuffer c @ [Mouse (clientX event) (clientY event) Click (seconds now)],
              stats := (stats c)\<lparr>mouseCount := mouseCount (stats c) + 1\<rparr>\<rparr>)"

text \<open>
  \<open>sendEventBatch\<close> is an async function. Up to its \<open>await\<close> it runs without
  interruption: the two guards, the copy of the buffer, the reset of the buffer, and the
  call of \<open>eventsAPI.submitBatch\<close>. \<open>sendEventBatch_begin\<close> is that part; it returns
  the request made, if any, and the state at the \<open>await\<close>.
\<close>

definition sendEventBatch_begin ::
  "string js \<Rightarrow> string js \<Rightarrow> capture \<Rightarrow> batch_request option \<times> capture" where
  "sendEventBatch_begin tok sid c =
     (if eventBuffer c = [] then (None, c)
      else if \<not> truthy_str tok \<or> \<not> truthy_str sid then (None, c)
      else (Some \<lparr>req_token = tok, req_session_id = sid, req_events = eventBuffer c\<rparr>,
            c\<lparr>eventBuffer := []\<rparr>))"

text \<open>
  The part after the \<open>await\<close>, run when the request settles: with a response body
  (\<open>Inr\<close>), or with a rejection (\<open>Inl\<close>), which the \<open>catch\<close> block logs. A body
  that is absent makes \<open>result.trust_score\<close> throw after \<open>batchesSent\<close> was
  increased; the same \<open>catch\<close> logs it.
\<close>

definition sendEventBatch_settle :: "error + batch_result js \<Rightarrow> capture \<Rightarrow> capture" where
  "sendEventBatch_settle outcome c =
     (case outcome of
        Inl e \<Rightarrow> c\<lparr>console := console c @ [ErrorSendingBatch e]\<rparr>
      | Inr body \<Rightarrow>
          (let c1 = c\<lparr>stats := (stats c)\<lparr>batchesSent := batchesSent (stats c) + 1\<rparr>\<rparr>
           in case body of
                Defined result \<Rightarrow>
                  (let c2 = (if trust_score result \<noteq> Undefined
                             then c1\<lparr>updateTrustScore :=
                                       \<lparr>score = trust_score result, status = result_status result\<rparr>,
                                     updateId := updateId c1 + 1\<rparr>
                             else c1)
                   in c2\<lparr>console := console c2 @
                            [BatchSent (events_processed result) (trust_score result)]\<rparr>)
              | Undefined \<Rightarrow> c1\<lparr>console := console c1 @ [ErrorSendingBatch TypeError]\<rparr>
              | Null \<Rightarrow> c1\<lparr>console := console c1 @ [ErrorSendingBatch TypeError]\<rparr>))"

text \<open>
  One whole call with no listener running in between; \<open>server\<close> is the remote scorer,
  giving the outcome of a request.
\<close>

definition sendEventBatch ::
  "string js \<Rightarrow> string js \<Rightarrow> (batch_request \<Rightarrow> error + batch_result js) \<Rightarrow> capture \<Rightarrow> capture" where
  "sendEventBatch tok sid server c =
     (case sendEventBatch_begin tok sid c of
        (None, c') \<Rightarrow> c'
      | (Some request, c') \<Rightarrow> sendEventBatch_settle (server request) c')"

text \<open>
  \<open>startCapture\<close> and \<open>stopCapture\<close> of a render with token \<open>tok\<close> and session
  id \<open>sid\<close>. The listeners are attached by the first and removed by the second, so
  they are attached exactly while \<open>isCapturing\<close> holds. \<open>stopCapture_begin\<close> is
  \<open>stopCapture\<close> up to the \<open>await\<close> inside the \<open>sendEventBatch\<close> it calls.
\<close>

definition startCapture :: "string js \<Rightarrow> string js \<Rightarrow> capture \<Rightarrow> capture" where
  "startCapture tok sid c =
     (if isCapturing c then c
      else c\<lparr>isCapturing := True, flushTimers := flushTimers c @ [(tok, sid)]\<rparr>)"

definition stopCapture_begin ::
  "string js \<Rightarrow> string js \<Rightarrow> capture \<Rightarrow> batch_request option \<times> capture" where
  "stopCapture_begin tok sid c =
     (if \<not> isCapturing c then (None, c)
      else (let c1 = c\<lparr>isCapturing := False\<rparr>
            in if eventBuffer c1 \<noteq> [] then sendEventBatch_begin tok sid c1 else (None, c1)))"

definition stopCapture ::
  "string js \<Rightarrow> string js \<Rightarrow> (batch_request \<Rightarrow> error + batch_result js) \<Rightarrow> capture \<Rightarrow> capture" where
  "stopCapture tok sid server c =
     (case stopCapture_begin tok sid c of
        (None, c') \<Rightarrow> c'
      | (Some request, c') \<Rightarrow> sendEventBatch_settle (server request) c')"

text \<open>
  The effect of the hook, keyed on \<open>[token, sessionId]\<close>, as run in a render with
  token \<open>tok\<close> and session id \<open>sid\<close>: it returns at once, with no cleanup, unless
  both are set; otherwise it calls \<open>startCapture\<close> and returns
  \<open>() => stopCapture()\<close> as its cleanup. \<open>useEffect_cleanup\<close> runs the cleanup, up
  to the \<open>await\<close>; React does so before the effect runs again and when the component
  unmounts.
\<close>

definition useEffect_capture :: "string js \<Rightarrow> string js \<Rightarrow> capture \<Rightarrow> capture" where
  "useEffect_capture tok sid c =
     (if \<not> truthy_str tok \<or> \<not> truthy_str sid then c\<lparr>cleanup := None\<rparr>
      else (startCapture tok sid c)\<lparr>cleanup := Some (tok, sid)\<rparr>)"

definition useEffect_cleanup :: "capture \<Rightarrow> batch_request option \<times> capture" where
  "useEffect_cleanup c =
     (case cleanup c of
        None \<Rightarrow> (None, c)
      | Some (tok, sid) \<Rightarrow>
          (let r = stopCapture_begin tok sid c in (fst r, (snd r)\<lparr>cleanup := None\<rparr>)))"

text \<open>
  The states a hook instance can be in. It starts in \<open>initial_capture\<close>. Then, in any
  order: the effect runs for the token and session id of some render; its cleanup runs;
  a listener is called with an event (a call while the listeners are detached is
  harmless, each listener checks \<open>isCapturing\<close> first); an installed flush timer
  fires and \<open>sendEventBatch\<close> runs up to its \<open>await\<close>; a pending request settles.
\<close>

inductive reachable :: "capture \<Rightarrow> bool" where
  initial: "reachable initial_capture"
| effect: "reachable c \<Longrightarrow> reachable (useEffect_capture tok sid c)"
| cleanup: "reachable c \<Longrightarrow> reachable (snd (useEffect_cleanup c))"
| keydown: "reachable c \<Longrightarrow> reachable (handleKeyDown now event c)"
| keyup: "reachable c \<Longrightarrow> reachable (handleKeyUp now event c)"
| mousemove: "reachable c \<Longrightarrow> reachable (handleMouseMove now mevent c)"
| click: "reachable c \<Longrightarrow> reachable (handleMouseClick now mevent c)"
| tick: "reachable c \<Longrightarrow> (tok, sid) \<in> set (flushTimers c) \<Longrightarrow>
         reachable (snd (sendEventBatch_begin tok sid c))"
| settle: "reachable c \<Longrightarrow> reachable (sendEventBatch_settle outcome c)"


section \<open>The authentication context (context/AuthContext)\<close>

text \<open>
  The state cells of \<open>AuthProvider\<close>, the \<open>authToken\<close> entry of local storage
  (\<open>getItem\<close> gives \<open>null\<close> when there is none), and the errors its \<open>catch\<close>
  blocks write to the console.
\<close>

record auth =
  isAuthenticated :: bool
  token :: "string js"
  sessionId :: "string js"
  username :: "string js"
  loading :: bool
  authToken :: "string js"
  authConsole :: "error list"

text \<open>
  \<open>logout\<close>: \<open>tok\<close> is the token the called closure saw and \<open>outcome\<close> what
  \<open>authAPI.logout(tok)\<close> settles with; the request is made only for a token that is
  set. The \<open>finally\<close> block clears the session on every path.
\<close>

definition logout :: "string js \<Rightarrow> error + unit \<Rightarrow> auth \<Rightarrow> auth" where
  "logout tok outcome a =
     (let a1 = (if truthy_str tok
                then (case outcome of
                        Inl e \<Rightarrow> a\<lparr>authConsole := authConsole a @ [e]\<rparr>
                      | Inr u \<Rightarrow> a)
                else a)
      in a1\<lparr>token := Null, sessionId := Null, username := Null,
             isAuthenticated := False, authToken := Null\<rparr>)"

text \<open>\<open>AppContent\<close> renders \<open>Dashboard\<close> when authenticated and \<open>AuthView\<close> otherwise.\<close>

datatype view = DashboardView | AuthView

definition AppContent :: "auth \<Rightarrow> view" where
  "AppContent a = (if isAuthenticated a then DashboardView else AuthView)"


section \<open>Rounding and number text\<close>

text \<open>\<open>Math.round\<close> on a finite number: the nearest integer, a tie going up.\<close>

definition Math_round :: "real \<Rightarrow> int" where
  "Math_round x = \<lfloor>x + 1 / 2\<rfloor>"

text \<open>
  The decimal digits of an integer. This is the text JavaScript gives a whole number
  below \<open>10^21\<close> in magnitude; from there on JavaScript prints an exponent form, which
  \<open>show_int\<close> does not follow.
\<close>

fun show_nat :: "nat \<Rightarrow> string" where
  "show_nat n =
     (if n < 10 then [char_of (48 + n)]
      else show_nat (n div 10) @ [char_of (48 + n mod 10)])"

declare show_nat.simps [simp del]

definition show_int :: "int \<Rightarrow> string" where
  "show_int i = (if i < 0 then CHR ''-'' # show_nat (nat (- i)) else show_nat (nat i))"

text \<open>
  The text of \<open>${Math.round(score)}\<close> for an argument that may be absent:
  \<open>Math.round(undefined)\<close> is \<open>NaN\<close> and \<open>Math.round(null)\<close> is \<open>0\<close>.
\<close>

fun round_text :: "real js \<Rightarrow> string" where
  "round_text (Defined x) = show_int (Math_round x)"
| "round_text Undefined = ''NaN''"
| "round_text Null = ''0''"


section \<open>The dashboard with the policy callback (components/Dashboard, part 003)\<close>

definition POLL_INTERVAL_MS :: int where
  "POLL_INTERVAL_MS = 10000"

definition TERMINATE_DELAY_MS :: int where
  "TERMINATE_DELAY_MS = 4000"

text \<open>
  An alert \<open>{id: Date.now(), message, type, timestamp: new Date().toLocaleTimeString()}\<close>;
  the time of day is kept as the clock value it is printed from.
\<close>

record alert =
  alert_id :: int
  message :: string
  alert_type :: string
  alert_time :: int

record toast_msg =
  toast_message :: string
  toast_type :: string

text \<open>
  A pending \<open>setTimeout\<close>: when it is due and what it calls. The callback
  \<open>() => logout()\<close> carries the token its \<open>logout\<close> closed over.
\<close>

datatype callback = CallLogout "string js" | ClearToast

record timer =
  due :: int
  callback :: callback

record dashboard =
  trustScore :: "real js"
  trustStatus :: "string js"
  showStepUp :: bool
  alerts :: "alert list"

text \<open>
  The application: the state of \<open>AuthProvider\<close>, of \<open>ToastProvider\<close> and of
  \<open>Dashboard\<close>, the timers pending in the event loop, and the times at which
  \<open>logout\<close> was called from a timer.
\<close>

record app =
  auth :: auth
  dash :: dashboard
  toast :: "toast_msg js"
  timers :: "timer list"
  logoutCalls :: "int list"

text \<open>
  What a callback created in one render of \<open>Dashboard\<close> sees of the state: the values
  of \<open>trustScore\<close>, \<open>trustStatus\<close> and \<open>showStepUp\<close> of that render, and the token
  of the \<open>logout\<close> of that render. Writes go through the setters and reach the state
  itself.
\<close>

record scope =
  seen_trustScore :: "real js"
  seen_trustStatus :: "string js"
  seen_showStepUp :: bool
  seen_token :: "string js"

text \<open>The scope of the callbacks of the latest render.\<close>

definition render_scope :: "app \<Rightarrow> scope" where
  "render_scope s =
     \<lparr>seen_trustScore = trustScore (dash s), seen_trustStatus = trustStatus (dash s),
      seen_showStepUp = showStepUp (dash s), seen_token = token (auth s)\<rparr>"

text \<open>
  The scope of the callbacks of the first render: the initial values given to
  \<open>useState\<close>, and the token the session was mounted with.
\<close>

definition mount_scope :: "string js \<Rightarrow> scope" where
  "mount_scope tok =
     \<lparr>seen_trustScore = Defined 100, seen_trustStatus = Defined ''OK'',
      seen_showStepUp = False, seen_token = tok\<rparr>"

definition initial_dashboard :: dashboard where
  "initial_dashboard =
     \<lparr>trustScore = Defined 100, trustStatus = Defined ''OK'', showStepUp = False, alerts = []\<rparr>"

text \<open>\<open>setAlerts(prev => [{...}, ...prev].slice(0, 20))\<close>\<close>

definition addAlert :: "int \<Rightarrow> string \<Rightarrow> string \<Rightarrow> app \<Rightarrow> app" where
  "addAlert now msg ty s =
     s\<lparr>dash := (dash s)\<lparr>alerts :=
          take 20 (\<lparr>alert_id = now, message = msg, alert_type = ty, alert_time = now\<rparr>
                   # alerts (dash s))\<rparr>\<rparr>"

text \<open>\<open>showToast\<close> of \<open>ToastProvider\<close>: show the toast, clear it 3000 ms later.\<close>

definition showToast :: "int \<Rightarrow> string \<Rightarrow> string \<Rightarrow> app \<Rightarrow> app" where
  "showToast now msg ty s =
     s\<lparr>toast := Defined \<lparr>toast_message = msg, toast_type = ty\<rparr>,
       timers := timers s @ [\<lparr>due = now + 3000, callback = ClearToast\<rparr>]\<rparr>"

text \<open>The characters of the messages that are not ASCII, as their UTF-8 bytes.\<close>

definition no_entry_sign :: string where
  "no_entry_sign = [CHR 0xE2, CHR 0x9B, CHR 0x94]"

definition warning_sign :: string where
  "warning_sign = [CHR 0xE2, CHR 0x9A, CHR 0xA0, CHR 0xEF, CHR 0xB8, CHR 0x8F]"

definition bar_chart :: string where
  "bar_chart = [CHR 0xF0, CHR 0x9F, CHR 0x93, CHR 0x8A]"

definition check_mark :: string where
  "check_mark = [CHR 0xE2, CHR 0x9C, CHR 0x85]"

definition em_dash :: string where
  "em_dash = [CHR 0xE2, CHR 0x80, CHR 0x94]"

definition terminated_message :: string where
  "terminated_message = no_entry_sign @ '' Session terminated by security policy''"

definition stepup_message :: string where
  "stepup_message =
     warning_sign @ '' Suspicious behaviour '' @ em_dash @ '' step-up authentication required''"

definition monitor_message :: "real js \<Rightarrow> string" where
  "monitor_message sco =
     bar_chart @ '' Trust score in monitoring range ('' @ round_text sco @ '')''"

definition handleTerminate :: "scope \<Rightarrow> int \<Rightarrow> app \<Rightarrow> app" where
  "handleTerminate sc now s =
     (let s1 = addAlert now terminated_message ''danger'' s;
          s2 = showToast now
                 (''Session terminated '' @ em_dash @ '' logging out in 4 seconds'') ''error'' s1
      in s2\<lparr>timers := timers s2 @
               [\<lparr>due = now + TERMINATE_DELAY_MS, callback = CallLogout (seen_token sc)\<rparr>]\<rparr>)"

text \<open>
  \<open>applyPolicy(action, requireStepup, score, status)\<close>, called at time \<open>now\<close> as the
  callback of the render with scope \<open>sc\<close>.
\<close>

definition applyPolicy ::
  "scope \<Rightarrow> string js \<Rightarrow> bool js \<Rightarrow> real js \<Rightarrow> string js \<Rightarrow> int \<Rightarrow> app \<Rightarrow> app" where
  "applyPolicy sc act requireStepup sco sta now s =
     (let s1 = s\<lparr>dash := (dash s)\<lparr>trustScore := nullish sco (seen_trustScore sc),
                                   trustStatus := nullish sta (seen_trustStatus sc)\<rparr>\<rparr>
      in if act = Defined ''terminate'' then handleTerminate sc now s1
         else if act = Defined ''stepup'' \<or> truthy_bool requireStepup then
           (if \<not> seen_showStepUp sc
            then showToast now ''Re-authentication required'' ''warning''
                   (addAlert now stepup_message ''warning''
                      (s1\<lparr>dash := (dash s1)\<lparr>showStepUp := True\<rparr>\<rparr>))
            else s1)
         else if act = Defined ''monitor'' then addAlert now (monitor_message sco) ''info'' s1
         else s1)"

text \<open>The body of \<open>GET /trust/score/{session_id}\<close>.\<close>

record trust_response =
  resp_trust_score :: "real js"
  resp_status :: "string js"
  resp_action :: "string js"
  resp_require_stepup :: "bool js"

text \<open>
  \<open>refreshTrustScore\<close> once the request has settled with \<open>outcome\<close>; a rejection is
  logged and nothing else happens.
\<close>

definition refreshTrustScore :: "scope \<Rightarrow> error + trust_response \<Rightarrow> int \<Rightarrow> app \<Rightarrow> app" where
  "refreshTrustScore sc outcome now s =
     (case outcome of
        Inl e \<Rightarrow> s
      | Inr data \<Rightarrow>
          applyPolicy sc (resp_action data) (resp_require_stepup data)
            (resp_trust_score data) (resp_status data) now s)"

text \<open>
  The poll timer is installed by an effect with an empty dependency list
  (\<open>setInterval(refreshTrustScore, POLL_INTERVAL_MS)\<close> under \<open>useEffect(..., [])\<close>), so
  for the life of the component it calls the \<open>refreshTrustScore\<close> of the first render,
  whose \<open>applyPolicy\<close> is the one of the first render. The refresh button is given the
  \<open>refreshTrustScore\<close> of the latest render.
\<close>

definition poll_tick :: "string js \<Rightarrow> error + trust_response \<Rightarrow> int \<Rightarrow> app \<Rightarrow> app" where
  "poll_tick mount_token outcome now s = refreshTrustScore (mount_scope mount_token) outcome now s"

definition refresh_click :: "error + trust_response \<Rightarrow> int \<Rightarrow> app \<Rightarrow> app" where
  "refresh_click outcome now s = refreshTrustScore (render_scope s) outcome now s"

text \<open>\<open>fetchAlerts\<close>: the list from the backend replaces the local one; a failure is ignored.\<close>

definition fetchAlerts :: "error + alert list \<Rightarrow> app \<Rightarrow> app" where
  "fetchAlerts outcome s =
     (case outcome of
        Inl e \<Rightarrow> s
      | Inr fetched \<Rightarrow> s\<lparr>dash := (dash s)\<lparr>alerts := fetched\<rparr>\<rparr>)"

text \<open>
  The effect keyed on \<open>[updateTrustScore]\<close>. The object the capture hook stores has the
  fields \<open>score\<close> and \<open>status\<close> only, so \<open>action\<close> and \<open>requireStepup\<close> are
  \<open>undefined\<close> here.
\<close>

definition batch_effect :: "trust_update \<Rightarrow> error + alert list \<Rightarrow> int \<Rightarrow> app \<Rightarrow> app" where
  "batch_effect u fetched now s =
     (if score u = Null then s
      else fetchAlerts fetched
             (applyPolicy (render_scope s) Undefined Undefined (score u) (status u) now s))"

text \<open>
  After a step of the capture hook the dashboard renders again, and the effect runs if
  the object in \<open>updateTrustScore\<close> is a new one.
\<close>

definition dashboard_sync ::
  "capture \<Rightarrow> capture \<Rightarrow> error + alert list \<Rightarrow> int \<Rightarrow> app \<Rightarrow> app" where
  "dashboard_sync before after fetched now s =
     (if updateId after = updateId before then s
      else batch_effect (updateTrustScore after) fetched now s)"

text \<open>
  One flush of the capture hook followed by the render it causes: the state of the hook
  and of the application afterwards.
\<close>

definition batch_cycle ::
  "string js \<Rightarrow> string js \<Rightarrow> (batch_request \<Rightarrow> error + batch_result js) \<Rightarrow>
   error + alert list \<Rightarrow> int \<Rightarrow> capture \<times> app \<Rightarrow> capture \<times> app" where
  "batch_cycle tok sid server fetched now cs =
     (let c' = sendEventBatch tok sid server (fst cs)
      in (c', dashboard_sync (fst cs) c' fetched now (snd cs)))"

text \<open>\<open>handleStepUpSuccess\<close>\<close>

definition handleStepUpSuccess :: "error + alert list \<Rightarrow> int \<Rightarrow> app \<Rightarrow> app" where
  "handleStepUpSuccess fetched now s =
     fetchAlerts fetched
       (showToast now ''Re-authentication successful!'' ''success''
          (addAlert now (check_mark @ '' Step-up authentication successful'') ''info''
             (s\<lparr>dash := (dash s)\<lparr>trustScore := Defined 100, trustStatus := Defined ''OK'',
                                  showStepUp := False\<rparr>\<rparr>)))"

text \<open>
  The step-up modal is rendered while \<open>showStepUp\<close> holds, with \<open>onCancel={logout}\<close>:
  its cancel button calls \<open>logout\<close> of the authentication context.
\<close>

definition stepUp_onCancel :: "error + unit \<Rightarrow> app \<Rightarrow> app" where
  "stepUp_onCancel outcome s = s\<lparr>auth := logout (token (auth s)) outcome (auth s)\<rparr>"

text \<open>
  Timers. A callback schedules no timer, so the timers due by \<open>t\<close> can be taken out
  together and run in the order they fall due (those due at the same time in the order
  they were set). \<open>api\<close> answers \<open>POST /auth/logout\<close>.
\<close>

definition run_timer :: "(string js \<Rightarrow> error + unit) \<Rightarrow> timer \<Rightarrow> app \<Rightarrow> app" where
  "run_timer api tm s =
     (case callback tm of
        CallLogout tok \<Rightarrow>
          s\<lparr>auth := logout tok (api tok) (auth s), logoutCalls := logoutCalls s @ [due tm]\<rparr>
      | ClearToast \<Rightarrow> s\<lparr>toast := Null\<rparr>)"

definition advance :: "(string js \<Rightarrow> error + unit) \<Rightarrow> int \<Rightarrow> app \<Rightarrow> app" where
  "advance api t s =
     fold (run_timer api) (sort_key due (filter (\<lambda>tm. due tm \<le> t) (timers s)))
       (s\<lparr>timers := filter (\<lambda>tm. \<not> due tm \<le> t) (timers s)\<rparr>)"


section \<open>The earlier dashboard (frontend/src/components/Dashboard.jsx)\<close>

text \<open>
  This component renders the step-up modal with
  \<open>onCancel={() => setShowStepUp(false)}\<close>.
\<close>

definition Dashboard_jsx_onCancel :: "app \<Rightarrow> app" where
  "Dashboard_jsx_onCancel s = s\<lparr>dash := (dash s)\<lparr>showStepUp := False\<rparr>\<rparr>"


section \<open>The trust score card (components/TrustScoreCard, part 005)\<close>

record card =
  scoreClass :: string
  scoreValue :: int
  statusText :: string
  statusColor :: string

definition getScoreClass :: "real \<Rightarrow> string" where
  "getScoreClass sco = (if sco < 40 then ''danger'' else if sco < 70 then ''warning'' else ''success'')"

definition getStatusText :: "string js \<Rightarrow> string" where
  "getStatusText sta =
     (if sta = Defined ''OK'' then ''All systems normal''
      else if sta = Defined ''MONITOR'' then ''Monitoring for anomalies''
      else if sta = Defined ''SUSPICIOUS'' then ''Suspicious activity detected''
      else if sta = Defined ''CRITICAL'' then ''Critical - Session at risk''
      else ''Unknown status'')"

definition getStatusColor :: "string js \<Rightarrow> string" where
  "getStatusColor sta =
     (if sta = Defined ''OK'' then ''#10b981''
      else if sta = Defined ''MONITOR'' then ''#f59e0b''
      else if sta = Defined ''SUSPICIOUS'' then ''#ef4444''
      else if sta = Defined ''CRITICAL'' then ''#ef4444''
      else ''#94a3b8'')"

text \<open>What the card shows for a numeric \<open>score\<close>: the number in the circle is \<open>Math.round(score)\<close>.\<close>

definition TrustScoreCard :: "real \<Rightarrow> string js \<Rightarrow> card" where
  "TrustScoreCard sco sta =
     \<lparr>scoreClass = getScoreClass sco, scoreValue = Math_round sco,
      statusText = getStatusText sta, statusColor = getStatusColor sta\<rparr>"


section \<open>The first dashboard controller (dashboard.js, part 000)\<close>

text \<open>
  The elements \<open>updateTrustScore\<close> writes: the text of \<open>trustScoreValue\<close>, the classes
  \<open>warning\<close> and \<open>danger\<close> of \<open>trustScoreCircle\<close>, the text and the colour of
  \<open>trustStatus\<close>, and the children of \<open>alertsContainer\<close>, newest first, each with
  its class, the time it was added and its message.
\<close>

record page =
  trustScoreValue :: int
  circleWarning :: bool
  circleDanger :: bool
  trustStatusText :: string
  statusIndicator :: string
  alertsContainer :: "(string \<times> int \<times> string) list"

text \<open>\<open>addAlert(message, type)\<close> of this controller keeps ten alerts.\<close>

definition page_addAlert :: "int \<Rightarrow> string \<Rightarrow> string \<Rightarrow> page \<Rightarrow> page" where
  "page_addAlert now msg ty p =
     p\<lparr>alertsContainer := take 10 ((ty, now, msg) # alertsContainer p)\<rparr>"

definition page_updateTrustScore :: "int \<Rightarrow> real \<Rightarrow> string js \<Rightarrow> page \<Rightarrow> page" where
  "page_updateTrustScore now sco sta p =
     (let p1 = p\<lparr>trustScoreValue := Math_round sco,
                 circleWarning := (\<not> sco < 40 \<and> sco < 70),
                 circleDanger := (sco < 40)\<rparr>
      in if sta = Defined ''MONITOR''
         then p1\<lparr>trustStatusText := ''Monitoring for anomalies'', statusIndicator := ''#f59e0b''\<rparr>
         else if sta = Defined ''SUSPICIOUS''
         then (page_addAlert now
                 ''Suspicious behavior detected. Step-up authentication may be required.'' ''warning'' p1)
                \<lparr>trustStatusText := ''Suspicious activity detected'', statusIndicator := ''#ef4444''\<rparr>
         else if sta = Defined ''CRITICAL''
         then (page_addAlert now ''Critical trust level. Session will be terminated.'' ''danger'' p1)
                \<lparr>trustStatusText := ''Critical - Session at risk'', statusIndicator := ''#ef4444''\<rparr>
         else p1\<lparr>trustStatusText := ''All systems normal'', statusIndicator := ''#10b981''\<rparr>)"


section \<open>Base64url transcoding (services/api, part 008)\<close>

text \<open>
  \<open>btoa\<close> and \<open>atob\<close> are functions of the platform. They are modelled after their
  definition in the HTML standard: \<open>btoa\<close> is Base64 with padding over the code units
  of a binary string, \<open>atob\<close> is the forgiving Base64 decoder. A binary string is a
  string of code units below 256; every string built here with \<open>String.fromCharCode\<close>
  from bytes is one, and \<open>char\<close> has exactly these values.
\<close>

datatype dom_exception = InvalidCharacterError

definition b64_alphabet :: string where
  "b64_alphabet = ''ABCDEFGHIJKLMNOPQRSTUVWXYZabcdefghijklmnopqrstuvwxyz0123456789+/''"

text \<open>The character for a group of six bits, and the six bits of a character.\<close>

definition enc6 :: "nat \<Rightarrow> char" where
  "enc6 n = b64_alphabet ! n"

definition dec6 :: "char \<Rightarrow> nat option" where
  "dec6 c = map_of (zip b64_alphabet [0..<64]) c"

fun btoa_groups :: "nat list \<Rightarrow> string" where
  "btoa_groups (a # b # c # rest) =
     [enc6 (a div 4), enc6 (a mod 4 * 16 + b div 16), enc6 (b mod 16 * 4 + c div 64), enc6 (c mod 64)]
     @ btoa_groups rest"
| "btoa_groups [a, b] =
     [enc6 (a div 4), enc6 (a mod 4 * 16 + b div 16), enc6 (b mod 16 * 4), CHR ''='']"
| "btoa_groups [a] = [enc6 (a div 4), enc6 (a mod 4 * 16), CHR ''='', CHR ''='']"
| "btoa_groups [] = []"

definition btoa :: "string \<Rightarrow> string" where
  "btoa binary = btoa_groups (map of_char binary)"

fun atob_groups :: "nat list \<Rightarrow> nat list" where
  "atob_groups (p # q # r # s # rest) =
     [p * 4 + q div 16, q mod 16 * 16 + r div 4, r mod 4 * 64 + s] @ atob_groups rest"
| "atob_groups [p, q, r] = [p * 4 + q div 16, q mod 16 * 16 + r div 4]"
| "atob_groups [p, q] = [p * 4 + q div 16]"
| "atob_groups [p] = []"
| "atob_groups [] = []"

definition ascii_whitespace :: "char list" where
  "ascii_whitespace = [CHR 0x09, CHR 0x0A, CHR 0x0C, CHR 0x0D, CHR 0x20]"

text \<open>A string that ends with one or two \<open>=\<close> loses them.\<close>

definition strip_padding :: "string \<Rightarrow> string" where
  "strip_padding d =
     (case rev d of
        c1 # c2 # r \<Rightarrow>
          (if c1 = CHR ''='' \<and> c2 = CHR ''='' then rev r
           else if c1 = CHR ''='' then rev (c2 # r)
           else d)
      | [c1] \<Rightarrow> (if c1 = CHR ''='' then [] else d)
      | [] \<Rightarrow> d)"

definition atob :: "string \<Rightarrow> dom_exception + string" where
  "atob data =
     (let d1 = filter (\<lambda>c. c \<notin> set ascii_whitespace) data;
          d2 = (if length d1 mod 4 = 0 then strip_padding d1 else d1)
      in if length d2 mod 4 = 1 then Inl InvalidCharacterError
         else (case those (map dec6 d2) of
                 None \<Rightarrow> Inl InvalidCharacterError
               | Some sextets \<Rightarrow> Inr (map char_of (atob_groups sextets))))"

text \<open>\<open>s.replace(/x/g, 'y')\<close> and \<open>s.replace(/x/g, '')\<close> for a single character \<open>x\<close>.\<close>

definition replace_all :: "char \<Rightarrow> char \<Rightarrow> string \<Rightarrow> string" where
  "replace_all x y s = map (\<lambda>c. if c = x then y else c) s"

definition remove_all :: "char \<Rightarrow> string \<Rightarrow> string" where
  "remove_all x s = filter (\<lambda>c. c \<noteq> x) s"

text \<open>
  \<open>String.fromCharCode(bytes[i])\<close> for a byte, and the store
  \<open>bytes[i] = binaryString.charCodeAt(i)\<close> into a \<open>Uint8Array\<close>, which keeps the low
  eight bits.
\<close>

definition fromCharCode :: "8 word \<Rightarrow> char" where
  "fromCharCode b = char_of (unat b)"

definition store_charCode :: "char \<Rightarrow> 8 word" where
  "store_charCode c = of_nat (of_char c)"

text \<open>
  The two helpers. Each loop runs over the indices in order and handles one element per
  step, which is \<open>map\<close>. \<open>atob\<close> throws on malformed input and the helper does not
  catch it.
\<close>

definition arrayBufferToBase64 :: "8 word list \<Rightarrow> string" where
  "arrayBufferToBase64 buffer =
     remove_all CHR ''=''
       (replace_all CHR ''/'' CHR ''_''
          (replace_all CHR ''+'' CHR ''-'' (btoa (map fromCharCode buffer))))"

definition base64ToArrayBuffer :: "string \<Rightarrow> dom_exception + 8 word list" where
  "base64ToArrayBuffer base64 =
     (case atob (replace_all CHR ''_'' CHR ''/'' (replace_all CHR ''-'' CHR ''+'' base64)) of
        Inl e \<Rightarrow> Inl e
      | Inr binaryString \<Rightarrow> Inr (map store_charCode binaryString))"


section \<open>Scenarios and auxiliary notions\<close>

text \<open>
  The application right after a login and the first render of the dashboard: a session
  is stored, nothing is pending.
\<close>

definition logged_in :: "string \<Rightarrow> string \<Rightarrow> string \<Rightarrow> app" where
  "logged_in tok sid user =
     \<lparr>auth = \<lparr>isAuthenticated = True, token = Defined tok, sessionId = Defined sid,
              username = Defined user, loading = False, authToken = Defined tok,
              authConsole = []\<rparr>,
      dash = initial_dashboard, toast = Null, timers = [], logoutCalls = []\<rparr>"

text \<open>A session teardown is a pending timer that calls \<open>logout\<close>.\<close>

definition is_teardown :: "timer \<Rightarrow> bool" where
  "is_teardown tm = (case callback tm of CallLogout tok \<Rightarrow> True | ClearToast \<Rightarrow> False)"

text \<open>Two answers of \<open>GET /trust/score/{session_id}\<close>.\<close>

definition terminate_verdict :: trust_response where
  "terminate_verdict =
     \<lparr>resp_trust_score = Defined 10, resp_status = Defined ''CRITICAL'',
      resp_action = Defined ''terminate'', resp_require_stepup = Defined False\<rparr>"

definition stepup_verdict :: trust_response where
  "stepup_verdict =
     \<lparr>resp_trust_score = Defined 30, resp_status = Defined ''SUSPICIOUS'',
      resp_action = Defined ''stepup'', resp_require_stepup = Defined True\<rparr>"

text \<open>A capture in progress with two events buffered, and two key events.\<close>

definition busy_capture :: capture where
  "busy_capture =
     \<lparr>stats = \<lparr>keystrokeCount = 1, mouseCount = 1, batchesSent = 0\<rparr>,
      updateTrustScore = \<lparr>score = Null, status = Null\<rparr>,
      updateId = 0,
      eventBuffer = [Keystroke (ascii ''a'') Down 1, Mouse 10 20 Click 2],
      lastMouseMove = 0,
      isCapturing = True,
      console = [],
      flushTimers = [(Defined ''t'', Defined ''s'')],
      cleanup = Some (Defined ''t'', Defined ''s'')\<rparr>"

definition password_key :: key_event where
  "password_key = \<lparr>target_type = Defined ''password'', key = ascii ''s'', code = ascii ''KeyS''\<rparr>"

definition text_key :: key_event where
  "text_key = \<lparr>target_type = Defined ''text'', key = ascii ''a'', code = ascii ''KeyA''\<rparr>"

text \<open>
  For the transcoding proof: the six-bit groups of a byte sequence without padding, and
  what the two pairs of replacements do to one character.
\<close>

fun sextets :: "nat list \<Rightarrow> nat list" where
  "sextets (a # b # c # rest) =
     [a div 4, a mod 4 * 16 + b div 16, b mod 16 * 4 + c div 64, c mod 64] @ sextets rest"
| "sextets [a, b] = [a div 4, a mod 4 * 16 + b div 16, b mod 16 * 4]"
| "sextets [a] = [a div 4, a mod 4 * 16]"
| "sextets [] = []"

definition url_char :: "char \<Rightarrow> char" where
  "url_char c =
     (let c1 = (if c = CHR ''+'' then CHR ''-'' else c)
      in if c1 = CHR ''/'' then CHR ''_'' else c1)"

definition std_char :: "char \<Rightarrow> char" where
  "std_char c =
     (let c1 = (if c = CHR ''-'' then CHR ''+'' else c)
      in if c1 = CHR ''_'' then CHR ''/'' else c1)"

section \<open>Properties of the capture hook\<close>

lemma length_ascii [simp]: "length (ascii s) = length s"
  by (simp add: ascii_def)

text \<open>
  Every \<open>sendEventBatch\<close> the hook can call, from a flush timer or from the cleanup of
  its effect, closed over a token and a session id that are set: the effect creates
  both only after its guard \<open>if (!token || !sessionId) return\<close> has passed.
\<close>

lemma flush_closures_have_session:
  assumes "reachable c"
  shows "(\<forall>p \<in> set (flushTimers c). truthy_str (fst p) \<and> truthy_str (snd p))
       \<and> (\<forall>p. cleanup c = Some p \<longrightarrow> truthy_str (fst p) \<and> truthy_str (snd p))"
  using assms
proof (induction rule: reachable.induct)
  case initial
  then show ?case by (simp add: initial_capture_def)
next
  case (effect c tok sid)
  then show ?case by (auto simp add: useEffect_capture_def startCapture_def)
next
  case (cleanup c)
  then show ?case
    by (auto simp add: useEffect_cleanup_def stopCapture_begin_def sendEventBatch_begin_def
          Let_def split: option.splits prod.splits)
next
  case (keydown c now event)
  then show ?case by (simp add: handleKeyDown_def)
next
  case (keyup c now event)
  then show ?case by (simp add: handleKeyUp_def)
next
  case (mousemove c now mevent)
  then show ?case by (simp add: handleMouseMove_def)
next
  case (click c now mevent)
  then show ?case by (simp add: handleMouseClick_def)
next
  case (tick c tok sid)
  then show ?case by (simp add: sendEventBatch_begin_def)
next
  case (settle c outcome)
  then show ?case
    by (simp add: sendEventBatch_settle_def Let_def split: sum.splits js.splits)
qed

text \<open>With a token and a session id, the flush of a non-empty buffer goes through.\<close>

lemma sendEventBatch_begin_session:
  assumes "eventBuffer c \<noteq> []" and "truthy_str tok" and "truthy_str sid"
  shows "sendEventBatch_begin tok sid c
           = (Some \<lparr>req_token = tok, req_session_id = sid, req_events = eventBuffer c\<rparr>,
              c\<lparr>eventBuffer := []\<rparr>)"
  using assms by (simp add: sendEventBatch_begin_def)

lemma busy_capture_reachable: "reachable busy_capture"
proof -
  have "busy_capture
          = handleMouseClick 2000 \<lparr>clientX = 10, clientY = 20\<rparr>
              (handleKeyDown 1000 \<lparr>target_type = Defined ''text'', key = ascii ''a'', code = ascii ''KeyA''\<rparr>
                 (useEffect_capture (Defined ''t'') (Defined ''s'') initial_capture))"
    by (simp add: busy_capture_def handleMouseClick_def handleKeyDown_def useEffect_capture_def
          startCapture_def initial_capture_def key_name_def seconds_def)
  moreover have "reachable (handleMouseClick 2000 \<lparr>clientX = 10, clientY = 20\<rparr>
              (handleKeyDown 1000 \<lparr>target_type = Defined ''text'', key = ascii ''a'', code = ascii ''KeyA''\<rparr>
                 (useEffect_capture (Defined ''t'') (Defined ''s'') initial_capture)))"
    by (intro reachable.click reachable.keydown reachable.effect reachable.initial)
  ultimately show ?thesis by simp
qed

lemma buffer_grows_only_while_capturing:
  "\<not> isCapturing c \<Longrightarrow>
     handleKeyDown now e c = c \<and> handleKeyUp now e c = c
     \<and> handleMouseMove now m c = c \<and> handleMouseClick now m c = c"
  by (simp add: handleKeyDown_def handleKeyUp_def handleMouseMove_def handleMouseClick_def)

text \<open>
  Claim C3. While capture is active, a keydown or keyup whose target is a password field
  leaves the event buffer and all counters (\<open>keystrokeCount\<close>, \<open>mouseCount\<close>,
  \<open>batchesSent\<close>) as they were: the keystroke is neither buffered nor counted.
\<close>

theorem sensitive_keystroke_not_recorded:
  assumes "isCapturing c" and "target_type event = Defined ''password''"
  shows "eventBuffer (handleKeyDown now event c) = eventBuffer c
       \<and> keystrokeCount (stats (handleKeyDown now event c)) = keystrokeCount (stats c)
       \<and> mouseCount (stats (handleKeyDown now event c)) = mouseCount (stats c)
       \<and> eventBuffer (handleKeyUp now event c) = eventBuffer c
       \<and> keystrokeCount (stats (handleKeyUp now event c)) = keystrokeCount (stats c)
       \<and> mouseCount (stats (handleKeyUp now event c)) = mouseCount (stats c)"
  using assms by (simp add: handleKeyDown_def handleKeyUp_def)

theorem sensitive_keystroke_not_recorded_witness:
  "isCapturing busy_capture \<and> target_type password_key = Defined ''password''
   \<and> eventBuffer (handleKeyDown 5000 password_key busy_capture)
       = [Keystroke (ascii ''a'') Down 1, Mouse 10 20 Click 2]
   \<and> keystrokeCount (stats (handleKeyDown 5000 password_key busy_capture)) = 1
   \<and> mouseCount (stats (handleKeyDown 5000 password_key busy_capture)) = 1
   \<and> eventBuffer (handleKeyUp 5000 password_key busy_capture)
       = [Keystroke (ascii ''a'') Down 1, Mouse 10 20 Click 2]
   \<and> keystrokeCount (stats (handleKeyUp 5000 password_key busy_capture)) = 1
   \<and> mouseCount (stats (handleKeyUp 5000 password_key busy_capture)) = 1"
proof -
  have h1: "isCapturing busy_capture"
    by (simp add: busy_capture_def)
  have h2: "target_type password_key = Defined ''password''"
    by (simp add: password_key_def)
  show ?thesis
    using h1 h2 sensitive_keystroke_not_recorded [OF h1 h2, of 5000]
    by (simp add: busy_capture_def)
qed

text \<open>
  Claim C4. In every state the hook can reach, a flush of a non-empty buffer, whether
  made by a flush timer or by the final \<open>stopCapture\<close>, submits exactly the events
  that were in the buffer, in their order, and leaves the buffer empty at once; the
  buffer is also empty when the call has finished, whatever the server answered.
\<close>

theorem flush_swaps_buffer:
  assumes "reachable c" and "eventBuffer c \<noteq> []"
    and "(tok, sid) \<in> set (flushTimers c) \<or> cleanup c = Some (tok, sid)"
  shows "fst (sendEventBatch_begin tok sid c)
           = Some \<lparr>req_token = tok, req_session_id = sid, req_events = eventBuffer c\<rparr>
       \<and> eventBuffer (snd (sendEventBatch_begin tok sid c)) = []
       \<and> eventBuffer (sendEventBatch tok sid server c) = []
       \<and> (isCapturing c \<longrightarrow>
            fst (stopCapture_begin tok sid c)
              = Some \<lparr>req_token = tok, req_session_id = sid, req_events = eventBuffer c\<rparr>
            \<and> eventBuffer (snd (stopCapture_begin tok sid c)) = [])"
proof -
  have session: "truthy_str tok \<and> truthy_str sid"
    using flush_closures_have_session [OF assms(1)] assms(3) by auto
  then have b: "sendEventBatch_begin tok sid c'
                  = (Some \<lparr>req_token = tok, req_session_id = sid, req_events = eventBuffer c\<rparr>,
                     c'\<lparr>eventBuffer := []\<rparr>)"
    if "eventBuffer c' = eventBuffer c" for c'
    using sendEventBatch_begin_session [of c' tok sid] assms(2) that by simp
  have "eventBuffer (sendEventBatch tok sid server c) = []"
    unfolding sendEventBatch_def b [of c, simplified]
    by (simp add: sendEventBatch_settle_def Let_def split: sum.splits js.splits)
  moreover have "isCapturing c \<longrightarrow>
            fst (stopCapture_begin tok sid c)
              = Some \<lparr>req_token = tok, req_session_id = sid, req_events = eventBuffer c\<rparr>
            \<and> eventBuffer (snd (stopCapture_begin tok sid c)) = []"
    using assms(2) b [of "c\<lparr>isCapturing := False\<rparr>"]
    by (simp add: stopCapture_begin_def Let_def)
  ultimately show ?thesis
    using b [of c] by simp
qed

theorem flush_swaps_buffer_witness:
  "reachable busy_capture \<and> eventBuffer busy_capture \<noteq> []
   \<and> ((Defined ''t'', Defined ''s'') \<in> set (flushTimers busy_capture)
        \<or> cleanup busy_capture = Some (Defined ''t'', Defined ''s''))
   \<and> isCapturing busy_capture
   \<and> fst (sendEventBatch_begin (Defined ''t'') (Defined ''s'') busy_capture)
       = Some \<lparr>req_token = Defined ''t'', req_session_id = Defined ''s'',
               req_events = [Keystroke (ascii ''a'') Down 1, Mouse 10 20 Click 2]\<rparr>
   \<and> eventBuffer (snd (sendEventBatch_begin (Defined ''t'') (Defined ''s'') busy_capture)) = []
   \<and> eventBuffer (sendEventBatch (Defined ''t'') (Defined ''s'') (\<lambda>r. Inl NetworkError) busy_capture) = []
   \<and> fst (stopCapture_begin (Defined ''t'') (Defined ''s'') busy_capture)
       = Some \<lparr>req_token = Defined ''t'', req_session_id = Defined ''s'',
               req_events = [Keystroke (ascii ''a'') Down 1, Mouse 10 20 Click 2]\<rparr>
   \<and> eventBuffer (snd (stopCapture_begin (Defined ''t'') (Defined ''s'') busy_capture)) = []"
proof -
  have h1: "reachable busy_capture"
    by (rule busy_capture_reachable)
  have h2: "eventBuffer busy_capture \<noteq> []"
    by (simp add: busy_capture_def)
  have h3: "(Defined ''t'', Defined ''s'') \<in> set (flushTimers busy_capture)
        \<or> cleanup busy_capture = Some (Defined ''t'', Defined ''s'')"
    by (simp add: busy_capture_def)
  have h4: "isCapturing busy_capture"
    by (simp add: busy_capture_def)
  show ?thesis
    using h1 h2 h3 h4 flush_swaps_buffer [OF h1 h2 h3, of "\<lambda>r. Inl NetworkError"]
    by (simp add: busy_capture_def)
qed

text \<open>
  Claim C5, amended. While capture is active: every keydown outside a password field
  raises \<open>keystrokeCount\<close> by exactly 1 and no other counter; every keyup outside a
  password field is buffered but changes no counter; every click raises \<open>mouseCount\<close>
  by exactly 1 and no other counter, however soon it follows a recorded move; a mouse
  move that is not throttled (it comes at a time \<open>tm\<close> at least \<open>MOUSE_THROTTLE\<close>
  after the last recorded move) raises \<open>mouseCount\<close> by exactly 1 and no other
  counter; a keystroke in a password field changes no counter. The throttle bears on
  the move alone: the key events and the click happen at any time \<open>now\<close>.
\<close>

theorem counters_per_event:
  assumes "isCapturing c"
    and "target_type e \<noteq> Defined ''password''"
    and "target_type p = Defined ''password''"
    and "\<not> tm - lastMouseMove c < MOUSE_THROTTLE"
  shows "stats (handleKeyDown now e c) = (stats c)\<lparr>keystrokeCount := keystrokeCount (stats c) + 1\<rparr>
       \<and> stats (handleKeyUp now e c) = stats c
       \<and> eventBuffer (handleKeyUp now e c) = eventBuffer c @ [Keystroke (key_name e) Up (seconds now)]
       \<and> stats (handleMouseMove tm m c) = (stats c)\<lparr>mouseCount := mouseCount (stats c) + 1\<rparr>
       \<and> stats (handleMouseClick now m c) = (stats c)\<lparr>mouseCount := mouseCount (stats c) + 1\<rparr>
       \<and> stats (handleKeyDown now p c) = stats c
       \<and> stats (handleKeyUp now p c) = stats c"
  using assms
  by (simp add: handleKeyDown_def handleKeyUp_def handleMouseMove_def handleMouseClick_def)

text \<open>
  An instance: the last recorded move was at 0 ms; the key events and the click come at
  50 ms, inside the throttle interval, and are counted as stated; the move comes at
  5000 ms.
\<close>

theorem counters_per_event_witness:
  "isCapturing busy_capture \<and> target_type text_key \<noteq> Defined ''password''
   \<and> target_type password_key = Defined ''password''
   \<and> \<not> 5000 - lastMouseMove busy_capture < MOUSE_THROTTLE
   \<and> 50 - lastMouseMove busy_capture < MOUSE_THROTTLE
   \<and> stats (handleKeyDown 50 text_key busy_capture)
       = \<lparr>keystrokeCount = 2, mouseCount = 1, batchesSent = 0\<rparr>
   \<and> stats (handleKeyUp 50 text_key busy_capture)
       = \<lparr>keystrokeCount = 1, mouseCount = 1, batchesSent = 0\<rparr>
   \<and> eventBuffer (handleKeyUp 50 text_key busy_capture)
       = [Keystroke (ascii ''a'') Down 1, Mouse 10 20 Click 2, Keystroke (ascii ''a'') Up (1 / 20)]
   \<and> stats (handleMouseMove 5000 \<lparr>clientX = 3, clientY = 4\<rparr> busy_capture)
       = \<lparr>keystrokeCount = 1, mouseCount = 2, batchesSent = 0\<rparr>
   \<and> stats (handleMouseClick 50 \<lparr>clientX = 3, clientY = 4\<rparr> busy_capture)
       = \<lparr>keystrokeCount = 1, mouseCount = 2, batchesSent = 0\<rparr>
   \<and> stats (handleKeyDown 50 password_key busy_capture)
       = \<lparr>keystrokeCount = 1, mouseCount = 1, batchesSent = 0\<rparr>
   \<and> stats (handleKeyUp 50 password_key busy_capture)
       = \<lparr>keystrokeCount = 1, mouseCount = 1, batchesSent = 0\<rparr>"
proof -
  have h1: "isCapturing busy_capture"
    by (simp add: busy_capture_def)
  have h2: "target_type text_key \<noteq> Defined ''password''"
    by (simp add: text_key_def)
  have h3: "target_type password_key = Defined ''password''"
    by (simp add: password_key_def)
  have h4: "\<not> 5000 - lastMouseMove busy_capture < MOUSE_THROTTLE"
    by (simp add: busy_capture_def MOUSE_THROTTLE_def)
  have h5: "50 - lastMouseMove busy_capture < MOUSE_THROTTLE"
    by (simp add: busy_capture_def MOUSE_THROTTLE_def)
  show ?thesis
    using h1 h2 h3 h4 h5
      counters_per_event [OF h1 h2 h3 h4, of 50 "\<lparr>clientX = 3, clientY = 4\<rparr>"]
    by (simp add: busy_capture_def text_key_def key_name_def seconds_def)
qed

text \<open>
  The claim as written fails for keyup: a keyup outside a password field, with capture
  active, leaves \<open>keystrokeCount\<close> at 1 instead of raising it to 2.
\<close>

theorem keyup_not_counted:
  "keystrokeCount (stats (handleKeyUp 5000 text_key busy_capture))
     \<noteq> keystrokeCount (stats busy_capture) + 1"
  by (simp add: handleKeyUp_def busy_capture_def text_key_def)

text \<open>
  Claim C8. When a batch has been submitted and the submission fails (the request is
  rejected: network error or a status that is not 2xx), the failure is written to the
  console and nothing else happens: the buffer stays empty (the events of the batch are
  gone, they are not put back), the counters and \<open>updateTrustScore\<close> are as before,
  and the application (displayed score and status, alerts, toast, timers) is unchanged.
  The next flush has nothing to send, so the batch is not retried. The last part covers
  a request that settles after other events were captured: the state at that moment
  only gains the console line.
\<close>

theorem failed_batch_only_logged:
  assumes "fst (sendEventBatch_begin tok sid c) = Some request" and "server request = Inl e"
  shows "batch_cycle tok sid server fetched now (c, s)
           = (c\<lparr>eventBuffer := [], console := console c @ [ErrorSendingBatch e]\<rparr>, s)
       \<and> fst (sendEventBatch_begin tok sid (fst (batch_cycle tok sid server fetched now (c, s)))) = None
       \<and> sendEventBatch_settle (Inl e) c2 = c2\<lparr>console := console c2 @ [ErrorSendingBatch e]\<rparr>"
proof -
  have "sendEventBatch_begin tok sid c = (Some request, c\<lparr>eventBuffer := []\<rparr>)"
    using assms(1) by (auto simp add: sendEventBatch_begin_def split: if_splits)
  then show ?thesis
    using assms(2)
    by (simp add: batch_cycle_def sendEventBatch_def sendEventBatch_begin_def
          sendEventBatch_settle_def dashboard_sync_def Let_def)
qed

theorem failed_batch_only_logged_witness:
  "fst (sendEventBatch_begin (Defined ''t'') (Defined ''s'') busy_capture)
     = Some \<lparr>req_token = Defined ''t'', req_session_id = Defined ''s'',
             req_events = [Keystroke (ascii ''a'') Down 1, Mouse 10 20 Click 2]\<rparr>
   \<and> (\<lambda>r. Inl (HttpStatus 500) :: error + batch_result js)
        \<lparr>req_token = Defined ''t'', req_session_id = Defined ''s'',
         req_events = [Keystroke (ascii ''a'') Down 1, Mouse 10 20 Click 2]\<rparr> = Inl (HttpStatus 500)
   \<and> batch_cycle (Defined ''t'') (Defined ''s'') (\<lambda>r. Inl (HttpStatus 500)) (Inl NetworkError) 9000
        (busy_capture, logged_in ''t'' ''s'' ''u'')
       = (busy_capture\<lparr>eventBuffer := [], console := [ErrorSendingBatch (HttpStatus 500)]\<rparr>,
          logged_in ''t'' ''s'' ''u'')
   \<and> batchesSent (stats (fst (batch_cycle (Defined ''t'') (Defined ''s'') (\<lambda>r. Inl (HttpStatus 500))
        (Inl NetworkError) 9000 (busy_capture, logged_in ''t'' ''s'' ''u'')))) = 0"
proof -
  have h1: "fst (sendEventBatch_begin (Defined ''t'') (Defined ''s'') busy_capture)
     = Some \<lparr>req_token = Defined ''t'', req_session_id = Defined ''s'',
             req_events = [Keystroke (ascii ''a'') Down 1, Mouse 10 20 Click 2]\<rparr>"
    by (simp add: sendEventBatch_begin_def busy_capture_def)
  have h2: "(\<lambda>r. Inl (HttpStatus 500) :: error + batch_result js)
        \<lparr>req_token = Defined ''t'', req_session_id = Defined ''s'',
         req_events = [Keystroke (ascii ''a'') Down 1, Mouse 10 20 Click 2]\<rparr> = Inl (HttpStatus 500)"
    by simp
  show ?thesis
    using h1
      failed_batch_only_logged [OF h1 h2, of "Inl NetworkError" 9000 "logged_in ''t'' ''s'' ''u''"]
    by (simp add: busy_capture_def)
qed

section \<open>Properties of the policy callback\<close>

text \<open>
  Claim C1, amended. A snapshot applied with no action (absent or \<open>null\<close>) and no
  \<open>require_stepup\<close> flag only replaces the displayed score and status, whatever the
  score is: no alert is added, the step-up modal is not opened, no toast is shown and no
  teardown is scheduled. The callback has no table from scores to actions; monitoring,
  step-up and termination happen only on an explicit action (step-up also on the flag).
\<close>

theorem no_action_only_updates_display:
  assumes "act = Undefined \<or> act = Null" and "\<not> truthy_bool requireStepup"
  shows "applyPolicy sc act requireStepup sco sta now s
           = s\<lparr>dash := (dash s)\<lparr>trustScore := nullish sco (seen_trustScore sc),
                                  trustStatus := nullish sta (seen_trustStatus sc)\<rparr>\<rparr>"
  using assms by (auto simp add: applyPolicy_def Let_def)

theorem no_action_only_updates_display_witness:
  "((Undefined :: string js) = Undefined \<or> (Undefined :: string js) = Null)
   \<and> \<not> truthy_bool Undefined
   \<and> applyPolicy (render_scope (logged_in ''t'' ''s'' ''u'')) Undefined Undefined
        (Defined 85) (Defined ''OK'') 7000 (logged_in ''t'' ''s'' ''u'')
       = (logged_in ''t'' ''s'' ''u'')
           \<lparr>dash := \<lparr>trustScore = Defined 85, trustStatus = Defined ''OK'',
                     showStepUp = False, alerts = []\<rparr>\<rparr>"
proof -
  have h1: "(Undefined :: string js) = Undefined \<or> (Undefined :: string js) = Null"
    by simp
  have h2: "\<not> truthy_bool Undefined"
    by simp
  show ?thesis
    using h2
      no_action_only_updates_display [OF h1 h2,
        of "render_scope (logged_in ''t'' ''s'' ''u'')" "Defined 85" "Defined ''OK''" 7000
           "logged_in ''t'' ''s'' ''u''"]
    by (simp add: logged_in_def initial_dashboard_def)
qed

text \<open>
  The claim as written fails below 70: with no action, a score of 10 schedules no
  teardown, a score of 30 opens no modal, and a score of 55 adds no alert.
\<close>

theorem no_fallback_table:
  "timers (applyPolicy (render_scope (logged_in ''t'' ''s'' ''u'')) Undefined Undefined
             (Defined 10) (Defined ''CRITICAL'') 7000 (logged_in ''t'' ''s'' ''u'')) = []
   \<and> showStepUp (dash (applyPolicy (render_scope (logged_in ''t'' ''s'' ''u'')) Undefined Undefined
             (Defined 30) (Defined ''SUSPICIOUS'') 7000 (logged_in ''t'' ''s'' ''u''))) = False
   \<and> alerts (dash (applyPolicy (render_scope (logged_in ''t'' ''s'' ''u'')) Undefined Undefined
             (Defined 55) (Defined ''MONITOR'') 7000 (logged_in ''t'' ''s'' ''u''))) = []"
  by (simp add: applyPolicy_def logged_in_def initial_dashboard_def Let_def)

text \<open>What a callback run by timers adds to the record of \<open>logout\<close> calls.\<close>

lemma fold_run_timer_logoutCalls:
  "logoutCalls (fold (run_timer api) tms s) = logoutCalls s @ map due (filter is_teardown tms)"
  by (induction tms arbitrary: s)
     (auto simp add: run_timer_def is_teardown_def split: callback.splits)

text \<open>
  Claim C2, amended. Every terminate verdict that is applied schedules a teardown of
  its own, due \<open>TERMINATE_DELAY_MS\<close> after that verdict, whether or not one is pending
  already (together with the timer that clears its toast); and every pending teardown
  that falls due calls \<open>logout\<close>, once, at its own time. So the first \<open>logout\<close>
  comes at the time scheduled first, and a second verdict inside the grace time adds a
  second teardown and a second call.
\<close>

theorem terminate_schedules_each_time:
  "timers (applyPolicy sc (Defined ''terminate'') requireStepup sco sta now s)
     = timers s @ [\<lparr>due = now + 3000, callback = ClearToast\<rparr>,
                   \<lparr>due = now + TERMINATE_DELAY_MS, callback = CallLogout (seen_token sc)\<rparr>]
   \<and> logoutCalls (advance api t s')
     = logoutCalls s' @
         map due (filter is_teardown (sort_key due (filter (\<lambda>tm. due tm \<le> t) (timers s'))))"
  by (simp add: applyPolicy_def handleTerminate_def showToast_def addAlert_def Let_def
        advance_def fold_run_timer_logoutCalls)

theorem terminate_schedules_each_time_witness:
  "timers (applyPolicy (render_scope (logged_in ''t'' ''s'' ''u'')) (Defined ''terminate'') Undefined
            (Defined 10) (Defined ''CRITICAL'') 0 (logged_in ''t'' ''s'' ''u''))
     = [\<lparr>due = 3000, callback = ClearToast\<rparr>,
        \<lparr>due = 4000, callback = CallLogout (Defined ''t'')\<rparr>]
   \<and> logoutCalls (advance (\<lambda>tok. Inr ()) 4000
        ((logged_in ''t'' ''s'' ''u'')
           \<lparr>timers := [\<lparr>due = 3000, callback = ClearToast\<rparr>,
                        \<lparr>due = 4000, callback = CallLogout (Defined ''t'')\<rparr>]\<rparr>)) = [4000]"
  using terminate_schedules_each_time
    [where sc = "render_scope (logged_in ''t'' ''s'' ''u'')" and requireStepup = Undefined
       and sco = "Defined 10" and sta = "Defined ''CRITICAL''" and now = 0
       and s = "logged_in ''t'' ''s'' ''u''" and api = "\<lambda>tok. Inr ()" and t = 4000
       and s' = "(logged_in ''t'' ''s'' ''u'')
           \<lparr>timers := [\<lparr>due = 3000, callback = ClearToast\<rparr>,
                        \<lparr>due = 4000, callback = CallLogout (Defined ''t'')\<rparr>]\<rparr>"]
  by (simp add: logged_in_def render_scope_def TERMINATE_DELAY_MS_def is_teardown_def)

text \<open>
  The claim as written fails: two terminate verdicts, applied at 0 ms and at 1000 ms,
  leave two teardowns pending, and \<open>logout\<close> is called at 4000 ms and again at
  5000 ms.
\<close>

theorem two_terminates_two_teardowns:
  "length (filter is_teardown (timers
      (refresh_click (Inr terminate_verdict) 1000
         (refresh_click (Inr terminate_verdict) 0 (logged_in ''t'' ''s'' ''u''))))) = 2
   \<and> logoutCalls (advance (\<lambda>tok. Inr ()) 6000
        (refresh_click (Inr terminate_verdict) 1000
           (refresh_click (Inr terminate_verdict) 0 (logged_in ''t'' ''s'' ''u'')))) = [4000, 5000]"
  by (simp add: refresh_click_def refreshTrustScore_def terminate_verdict_def applyPolicy_def
        handleTerminate_def showToast_def addAlert_def Let_def logged_in_def render_scope_def
        is_teardown_def advance_def run_timer_def TERMINATE_DELAY_MS_def initial_dashboard_def
        logout_def)

text \<open>
  The guard of the step-up branch works for a callback that sees the modal open: such a
  call only replaces the displayed score and status. This is the case for the refresh
  button, whose callback is the one of the latest render.
\<close>

lemma applyPolicy_stepup_seen_open:
  assumes "seen_showStepUp sc" and "act \<noteq> Defined ''terminate''"
    and "act = Defined ''stepup'' \<or> truthy_bool requireStepup"
  shows "applyPolicy sc act requireStepup sco sta now s
           = s\<lparr>dash := (dash s)\<lparr>trustScore := nullish sco (seen_trustScore sc),
                                  trustStatus := nullish sta (seen_trustStatus sc)\<rparr>\<rparr>"
  using assms by (auto simp add: applyPolicy_def Let_def)

lemma refresh_click_stepup_while_open:
  assumes "showStepUp (dash s)"
  shows "refresh_click (Inr stepup_verdict) now s
           = s\<lparr>dash := (dash s)\<lparr>trustScore := Defined 30, trustStatus := Defined ''SUSPICIOUS''\<rparr>\<rparr>"
  using assms
  by (simp add: refresh_click_def refreshTrustScore_def stepup_verdict_def render_scope_def
        applyPolicy_def Let_def)

text \<open>There is one flag for the modal, so no verdict can open a second one.\<close>

lemma stepup_keeps_modal_open:
  assumes "showStepUp (dash s)" and "act \<noteq> Defined ''terminate''"
  shows "showStepUp (dash (applyPolicy sc act requireStepup sco sta now s))"
  using assms by (simp add: applyPolicy_def showToast_def addAlert_def Let_def)

text \<open>
  Claim C7. The claim does not hold for the verdicts of the poll timer. The timer runs
  the callback of the first render, which saw \<open>showStepUp = false\<close>, so the guard
  \<open>if (!showStepUp)\<close> passes on every poll: a first step-up verdict at 10000 ms opens
  the modal and adds one step-up alert, and a second one at 20000 ms, with the modal
  open, adds a second step-up alert (and shows the toast again). The modal itself stays
  a single one.
\<close>

theorem poll_stepup_repeats_alert:
  "showStepUp (dash (poll_tick (Defined ''t'') (Inr stepup_verdict) 10000 (logged_in ''t'' ''s'' ''u'')))
   \<and> length (filter (\<lambda>a. message a = stepup_message) (alerts (dash
        (poll_tick (Defined ''t'') (Inr stepup_verdict) 10000 (logged_in ''t'' ''s'' ''u''))))) = 1
   \<and> showStepUp (dash (poll_tick (Defined ''t'') (Inr stepup_verdict) 20000
        (poll_tick (Defined ''t'') (Inr stepup_verdict) 10000 (logged_in ''t'' ''s'' ''u''))))
   \<and> length (filter (\<lambda>a. message a = stepup_message) (alerts (dash
        (poll_tick (Defined ''t'') (Inr stepup_verdict) 20000
          (poll_tick (Defined ''t'') (Inr stepup_verdict) 10000 (logged_in ''t'' ''s'' ''u'')))))) = 2"
  by (simp add: poll_tick_def refreshTrustScore_def stepup_verdict_def applyPolicy_def
        mount_scope_def showToast_def addAlert_def Let_def logged_in_def initial_dashboard_def)

text \<open>
  Claim C9, amended. In the dashboard with the policy callback, whose step-up modal is
  given \<open>onCancel={logout}\<close>, whenever the modal is open its cancel action results in
  forced logout: the session is cleared (also in local storage) and the unauthenticated
  view is shown, whatever the server answers to the logout request. In the earlier
  dashboard (\<open>frontend/src/components/Dashboard.jsx\<close>) the cancel action closes the
  modal and leaves the session as it is.
\<close>

theorem stepup_cancel_per_dashboard:
  assumes "showStepUp (dash s)"
  shows "isAuthenticated (auth (stepUp_onCancel outcome s)) = False
       \<and> token (auth (stepUp_onCancel outcome s)) = Null
       \<and> sessionId (auth (stepUp_onCancel outcome s)) = Null
       \<and> username (auth (stepUp_onCancel outcome s)) = Null
       \<and> authToken (auth (stepUp_onCancel outcome s)) = Null
       \<and> AppContent (auth (stepUp_onCancel outcome s)) = AuthView
       \<and> showStepUp (dash (Dashboard_jsx_onCancel s)) = False
       \<and> auth (Dashboard_jsx_onCancel s) = auth s"
  by (simp add: stepUp_onCancel_def logout_def AppContent_def Dashboard_jsx_onCancel_def Let_def
        split: sum.splits)

theorem stepup_cancel_per_dashboard_witness:
  "showStepUp (dash ((logged_in ''t'' ''s'' ''u'')\<lparr>dash := initial_dashboard\<lparr>showStepUp := True\<rparr>\<rparr>))
   \<and> isAuthenticated (auth (stepUp_onCancel (Inl NetworkError)
        ((logged_in ''t'' ''s'' ''u'')\<lparr>dash := initial_dashboard\<lparr>showStepUp := True\<rparr>\<rparr>))) = False
   \<and> token (auth (stepUp_onCancel (Inl NetworkError)
        ((logged_in ''t'' ''s'' ''u'')\<lparr>dash := initial_dashboard\<lparr>showStepUp := True\<rparr>\<rparr>))) = Null
   \<and> AppContent (auth (stepUp_onCancel (Inl NetworkError)
        ((logged_in ''t'' ''s'' ''u'')\<lparr>dash := initial_dashboard\<lparr>showStepUp := True\<rparr>\<rparr>))) = AuthView"
proof -
  have h: "showStepUp (dash ((logged_in ''t'' ''s'' ''u'')\<lparr>dash := initial_dashboard\<lparr>showStepUp := True\<rparr>\<rparr>))"
    by simp
  show ?thesis
    using h stepup_cancel_per_dashboard [OF h, of "Inl NetworkError"]
    by simp
qed

text \<open>
  The claim as written fails for the earlier dashboard: with a session and the modal
  open, its cancel button closes the modal and leaves the session as it is; the
  dashboard stays.
\<close>

theorem earlier_dashboard_cancel_keeps_session:
  "showStepUp (dash ((logged_in ''t'' ''s'' ''u'')\<lparr>dash := initial_dashboard\<lparr>showStepUp := True\<rparr>\<rparr>))
   \<and> showStepUp (dash (Dashboard_jsx_onCancel
        ((logged_in ''t'' ''s'' ''u'')\<lparr>dash := initial_dashboard\<lparr>showStepUp := True\<rparr>\<rparr>))) = False
   \<and> isAuthenticated (auth (Dashboard_jsx_onCancel
        ((logged_in ''t'' ''s'' ''u'')\<lparr>dash := initial_dashboard\<lparr>showStepUp := True\<rparr>\<rparr>)))
   \<and> token (auth (Dashboard_jsx_onCancel
        ((logged_in ''t'' ''s'' ''u'')\<lparr>dash := initial_dashboard\<lparr>showStepUp := True\<rparr>\<rparr>))) = Defined ''t''
   \<and> AppContent (auth (Dashboard_jsx_onCancel
        ((logged_in ''t'' ''s'' ''u'')\<lparr>dash := initial_dashboard\<lparr>showStepUp := True\<rparr>\<rparr>))) = DashboardView"
  by (simp add: Dashboard_jsx_onCancel_def logged_in_def AppContent_def)


section \<open>Properties of the score display\<close>

lemma Math_round_in_range:
  assumes "0 \<le> x" and "x \<le> 100"
  shows "0 \<le> Math_round x \<and> Math_round x \<le> 100"
  using assms unfolding Math_round_def by (simp add: floor_le_iff le_floor_iff)

text \<open>
  Claim C6, amended. For every numeric score the number shown, by the score card and by
  the first dashboard controller alike, is \<open>Math.round(score)\<close>; nothing clamps it. It
  lies in the interval from 0 to 100 when the received score does.
\<close>

theorem shown_score_is_rounded:
  "scoreValue (TrustScoreCard sco sta) = Math_round sco
   \<and> trustScoreValue (page_updateTrustScore now sco sta p) = Math_round sco
   \<and> (0 \<le> sco \<and> sco \<le> 100 \<longrightarrow>
        0 \<le> scoreValue (TrustScoreCard sco sta) \<and> scoreValue (TrustScoreCard sco sta) \<le> 100)"
  using Math_round_in_range [of sco]
  by (simp add: TrustScoreCard_def page_updateTrustScore_def page_addAlert_def Let_def)

theorem shown_score_is_rounded_witness:
  "(0::real) \<le> 554 / 10 \<and> (554 / 10 :: real) \<le> 100
   \<and> scoreValue (TrustScoreCard (554 / 10) (Defined ''MONITOR'')) = 55
   \<and> 0 \<le> scoreValue (TrustScoreCard (554 / 10) (Defined ''MONITOR''))
   \<and> scoreValue (TrustScoreCard (554 / 10) (Defined ''MONITOR'')) \<le> 100"
  using shown_score_is_rounded [of "554 / 10" "Defined ''MONITOR''"]
  by (simp add: Math_round_def)

text \<open>
  The claim as written fails outside the interval: a score of 150 is shown as 150 by the
  score card, and a score of -5 as -5 by the first dashboard controller.
\<close>

theorem shown_score_not_clamped:
  "scoreValue (TrustScoreCard 150 (Defined ''OK'')) = 150
   \<and> \<not> scoreValue (TrustScoreCard 150 (Defined ''OK'')) \<le> 100
   \<and> trustScoreValue (page_updateTrustScore 0 (- 5) (Defined ''OK'')
        \<lparr>trustScoreValue = 100, circleWarning = False, circleDanger = False,
         trustStatusText = ''All systems normal'', statusIndicator = ''#10b981'',
         alertsContainer = []\<rparr>) = - 5"
  by (simp add: TrustScoreCard_def page_updateTrustScore_def Math_round_def Let_def)

section \<open>Properties of the transcoding helpers\<close>

lemma distinct_alphabet: "distinct b64_alphabet"
  by (simp add: b64_alphabet_def)

lemma length_alphabet: "length b64_alphabet = 64"
  by (simp add: b64_alphabet_def)

lemma dec6_enc6: "n < 64 \<Longrightarrow> dec6 (enc6 n) = Some n"
  unfolding dec6_def enc6_def
  using map_of_zip_nth [of b64_alphabet "[0..<64]" n] distinct_alphabet length_alphabet
  by simp

lemma enc6_in_alphabet: "n < 64 \<Longrightarrow> enc6 n \<in> set b64_alphabet"
  by (simp add: enc6_def length_alphabet)

text \<open>
  No character of the alphabet is \<open>-\<close>, \<open>_\<close>, \<open>=\<close> or white space, so the
  replacements of the decoder undo those of the encoder.
\<close>

lemma alphabet_chars:
  "\<forall>c \<in> set b64_alphabet.
     std_char (url_char c) = c \<and> url_char c \<noteq> CHR ''='' \<and> c \<noteq> CHR ''=''
     \<and> c \<notin> set ascii_whitespace"
  by (simp add: b64_alphabet_def std_char_def url_char_def ascii_whitespace_def)

lemma sextets_bound:
  assumes "\<forall>n \<in> set ns. n < 256"
  shows "\<forall>v \<in> set (sextets ns). v < 64"
  using assms
proof (induction ns rule: sextets.induct)
  case (1 a b c rest)
  then have "a < 256" "b < 256" "c < 256" by simp_all
  then have "a div 4 < 64" "a mod 4 * 16 + b div 16 < 64"
    "b mod 16 * 4 + c div 64 < 64" "c mod 64 < 64"
    by arith+
  with 1 show ?case by simp
next
  case (2 a b)
  then have "a < 256" "b < 256" by simp_all
  then have "a div 4 < 64" "a mod 4 * 16 + b div 16 < 64" "b mod 16 * 4 < 64"
    by arith+
  then show ?case by simp
next
  case (3 a)
  then have "a < 256" by simp
  then have "a div 4 < 64" "a mod 4 * 16 < 64" by arith+
  then show ?case by simp
next
  case 4
  then show ?case by simp
qed

lemma div_group: "x < m \<Longrightarrow> (k * m + x) div m = (k::nat)"
  by simp

text \<open>Regrouping the six-bit groups gives the bytes back.\<close>

lemma atob_groups_sextets:
  assumes "\<forall>n \<in> set ns. n < 256"
  shows "atob_groups (sextets ns) = ns"
  using assms
proof (induction ns rule: sextets.induct)
  case (1 a b c rest)
  then have "b < 256" "c < 256" by simp_all
  then have b: "b div 16 < 16" and c: "c div 64 < 4" by simp_all
  have "a div 4 * 4 + (a mod 4 * 16 + b div 16) div 16 = a"
    by (simp add: div_group [OF b])
  moreover have "(a mod 4 * 16 + b div 16) mod 16 * 16 + (b mod 16 * 4 + c div 64) div 4 = b"
    using b c by (simp add: div_group [OF c])
  moreover have "(b mod 16 * 4 + c div 64) mod 4 * 64 + c mod 64 = c"
    using c by simp
  ultimately show ?case using 1 by simp
next
  case (2 a b)
  then have "b < 256" by simp
  then have b: "b div 16 < 16" by simp
  have "a div 4 * 4 + (a mod 4 * 16 + b div 16) div 16 = a"
    by (simp add: div_group [OF b])
  moreover have "(a mod 4 * 16 + b div 16) mod 16 * 16 + (b mod 16 * 4) div 4 = b"
    using b by simp
  ultimately show ?case by simp
next
  case (3 a)
  have "a div 4 * 4 + (a mod 4 * 16) div 16 = a" by simp
  then show ?case by simp
next
  case 4
  then show ?case by simp
qed

lemma length_sextets: "length (sextets ns) mod 4 \<noteq> 1"
  by (induction ns rule: sextets.induct) simp_all

text \<open>The encoder's output: one character per six-bit group, padding removed.\<close>

lemma url_text:
  assumes "\<forall>n \<in> set ns. n < 256"
  shows "remove_all CHR ''=''
           (replace_all CHR ''/'' CHR ''_'' (replace_all CHR ''+'' CHR ''-'' (btoa_groups ns)))
         = map (\<lambda>v. url_char (enc6 v)) (sextets ns)"
  using assms
proof (induction ns rule: sextets.induct)
  case (1 a b c rest)
  have "\<forall>v \<in> set (sextets (a # b # c # rest)). v < 64"
    using sextets_bound [OF "1.prems"] .
  then have "\<forall>v \<in> set (sextets (a # b # c # rest)). url_char (enc6 v) \<noteq> CHR ''=''"
    using alphabet_chars enc6_in_alphabet by blast
  moreover have "remove_all CHR ''=''
           (replace_all CHR ''/'' CHR ''_'' (replace_all CHR ''+'' CHR ''-'' (btoa_groups rest)))
         = map (\<lambda>v. url_char (enc6 v)) (sextets rest)"
    using 1 by simp
  ultimately show ?case
    by (simp add: remove_all_def replace_all_def url_char_def Let_def)
next
  case (2 a b)
  have "\<forall>v \<in> set (sextets [a, b]). v < 64"
    using sextets_bound [OF "2.prems"] .
  then have "\<forall>v \<in> set (sextets [a, b]). url_char (enc6 v) \<noteq> CHR ''=''"
    using alphabet_chars enc6_in_alphabet by blast
  then show ?case
    by (simp add: remove_all_def replace_all_def url_char_def Let_def)
next
  case (3 a)
  have "\<forall>v \<in> set (sextets [a]). v < 64"
    using sextets_bound [OF "3.prems"] .
  then have "\<forall>v \<in> set (sextets [a]). url_char (enc6 v) \<noteq> CHR ''=''"
    using alphabet_chars enc6_in_alphabet by blast
  then show ?case
    by (simp add: remove_all_def replace_all_def url_char_def Let_def)
next
  case 4
  then show ?case by (simp add: remove_all_def replace_all_def)
qed

lemma std_text:
  assumes "\<forall>v \<in> set vs. v < 64"
  shows "replace_all CHR ''_'' CHR ''/''
           (replace_all CHR ''-'' CHR ''+'' (map (\<lambda>v. url_char (enc6 v)) vs))
         = map enc6 vs"
proof -
  have "replace_all CHR ''_'' CHR ''/''
           (replace_all CHR ''-'' CHR ''+'' (map (\<lambda>v. url_char (enc6 v)) vs))
          = map (\<lambda>v. std_char (url_char (enc6 v))) vs"
    by (simp add: replace_all_def std_char_def Let_def)
  also have "\<dots> = map enc6 vs"
    using assms alphabet_chars enc6_in_alphabet by (intro map_cong) auto
  finally show ?thesis .
qed

lemma strip_padding_id:
  assumes "CHR ''='' \<notin> set d"
  shows "strip_padding d = d"
proof (cases "rev d")
  case Nil
  then show ?thesis by (simp add: strip_padding_def)
next
  case (Cons c1 r1)
  have "set (rev d) = set d" by simp
  with Cons assms have "c1 \<noteq> CHR ''=''" by (metis list.set_intros(1))
  with Cons show ?thesis by (cases r1) (simp_all add: strip_padding_def)
qed

lemma those_dec6: "\<forall>v \<in> set vs. v < 64 \<Longrightarrow> those (map dec6 (map enc6 vs)) = Some vs"
  by (induction vs) (simp_all add: dec6_enc6)

text \<open>\<open>atob\<close> accepts text without padding whose length is not 1 modulo 4.\<close>

lemma atob_enc6:
  assumes "\<forall>v \<in> set vs. v < 64" and "length vs mod 4 \<noteq> 1"
  shows "atob (map enc6 vs) = Inr (map char_of (atob_groups vs))"
proof -
  have in_alpha: "\<forall>c \<in> set (map enc6 vs). c \<in> set b64_alphabet"
    using assms(1) enc6_in_alphabet by auto
  then have ws: "filter (\<lambda>c. c \<notin> set ascii_whitespace) (map enc6 vs) = map enc6 vs"
    using alphabet_chars by (intro filter_True) blast
  have "CHR ''='' \<notin> set (map enc6 vs)"
    using in_alpha alphabet_chars by blast
  then have sp: "strip_padding (map enc6 vs) = map enc6 vs"
    by (rule strip_padding_id)
  show ?thesis
    unfolding atob_def ws Let_def using sp assms(2) those_dec6 [OF assms(1)] by simp
qed

lemma bytes_back: "map store_charCode (map char_of (map unat (bs :: 8 word list))) = bs"
proof -
  have "store_charCode (char_of (unat b)) = b" for b :: "8 word"
  proof -
    have "unat b < 256" using unsigned_less [of b] by simp
    then show ?thesis by (simp add: store_charCode_def)
  qed
  then show ?thesis by (simp add: map_idI)
qed

lemma codes_of_bytes: "map of_char (map fromCharCode bs) = map unat (bs :: 8 word list)"
proof -
  have "of_char (fromCharCode b) = unat b" for b :: "8 word"
  proof -
    have "unat b < 256" using unsigned_less [of b] by simp
    then show ?thesis by (simp add: fromCharCode_def)
  qed
  then show ?thesis by simp
qed

text \<open>
  Claim C10. For every byte sequence \<open>b\<close>, decoding its encoding does not throw and
  gives exactly the bytes of \<open>b\<close>.
\<close>

theorem base64_roundtrip: "base64ToArrayBuffer (arrayBufferToBase64 b) = Inr b"
proof -
  let ?ns = "map unat b"
  have small: "\<forall>n \<in> set ?ns. n < 256"
  proof
    fix n assume "n \<in> set ?ns"
    then obtain w :: "8 word" where "n = unat w" by auto
    then show "n < 256" using unsigned_less [of w] by simp
  qed
  have enc: "arrayBufferToBase64 b = map (\<lambda>v. url_char (enc6 v)) (sextets ?ns)"
    unfolding arrayBufferToBase64_def btoa_def codes_of_bytes using url_text [OF small] .
  have six: "\<forall>v \<in> set (sextets ?ns). v < 64"
    using sextets_bound [OF small] .
  have "atob (replace_all CHR ''_'' CHR ''/''
               (replace_all CHR ''-'' CHR ''+'' (arrayBufferToBase64 b)))
          = Inr (map char_of (atob_groups (sextets ?ns)))"
    unfolding enc std_text [OF six] using atob_enc6 [OF six length_sextets] .
  then show ?thesis
    unfolding base64ToArrayBuffer_def
    using atob_groups_sextets [OF small] bytes_back [of b] by simp
qed

text \<open>An instance: four bytes, whose encoding uses both replaced characters.\<close>

lemma encode_example: "arrayBufferToBase64 [0xfb, 0xff, 0x3e, 0x4d] = ''-_8-TQ''"
  by (simp add: arrayBufferToBase64_def btoa_def fromCharCode_def enc6_def b64_alphabet_def
        replace_all_def remove_all_def)

theorem base64_roundtrip_witness:
  "base64ToArrayBuffer ''-_8-TQ'' = Inr [0xfb, 0xff, 0x3e, 0x4d]"
  using base64_roundtrip [of "[0xfb, 0xff, 0x3e, 0x4d]"] encode_example by simp

end
